theory Spec2Isabelle
  imports Main "HOL-Library.Char_ord" "HOL-Library.List_Lexorder"
begin

section \<open>Revanced patches: the registry, the loader, the indexer and the selector\<close>

text \<open>
  A shallow embedding of \<^verbatim>\<open>src/patches.py\<close>. Python strings are \<open>string\<close>
  (their UTF-8 bytes, equal and ordered as Python's \<open>str\<close> are), dictionaries
  written as literals are association lists in source order, exceptions are the
  \<open>Inl\<close> side of a sum, and the attributes that \<^verbatim>\<open>setattr\<close> creates on a
  \<^verbatim>\<open>Patches\<close> instance are a map from attribute name to bucket.
\<close>

subsection \<open>Errors\<close>

text \<open>
  \<open>AppNotFound\<close> carries its message, \<open>PatchesJsonLoadFailed\<close> its message and
  the \<^verbatim>\<open>file_name\<close> keyword. The others are the interpreter's own exceptions:
  the JSON decoder's, a failed attribute read (with the attribute's name),
  \<^verbatim>\<open>len\<close> of an object without length, and a missing dictionary key.
\<close>

datatype error =
    AppNotFound string
  | PatchesJsonLoadFailed string string
  | JSONDecodeError
  | AttributeError string
  | TypeError
  | KeyError string

subsection \<open>The registry\<close>

text \<open>The class attribute \<^verbatim>\<open>_revanced_app_ids\<close>, in the order of the literal.\<close>

definition raw_revanced_app_ids :: "(string \<times> string) list" where
  "raw_revanced_app_ids =
    [(''com.reddit.frontpage'', ''reddit''),
     (''com.ss.android.ugc.trill'', ''tiktok''),
     (''com.twitter.android'', ''twitter''),
     (''de.dwd.warnapp'', ''warnwetter''),
     (''com.spotify.music'', ''spotify''),
     (''com.awedea.nyx'', ''nyx-music-player''),
     (''ginlemon.iconpackstudio'', ''icon_pack_studio''),
     (''com.ticktick.task'', ''ticktick''),
     (''tv.twitch.android.app'', ''twitch''),
     (''com.myprog.hexedit'', ''hex-editor''),
     (''co.windyapp.android'', ''windy''),
     (''org.totschnig.myexpenses'', ''my-expenses''),
     (''com.backdrops.wallpapers'', ''backdrops''),
     (''com.ithebk.expensemanager'', ''expensemanager''),
     (''net.dinglisch.android.taskerm'', ''tasker''),
     (''net.binarymode.android.irplus'', ''irplus''),
     (''com.vsco.cam'', ''vsco''),
     (''com.zombodroid.MemeGenerator'', ''meme-generator-free''),
     (''com.teslacoilsw.launcher'', ''nova_launcher''),
     (''eu.faircode.netguard'', ''netguard''),
     (''com.instagram.android'', ''instagram''),
     (''com.nis.app'', ''inshorts''),
     (''com.facebook.orca'', ''messenger''),
     (''com.google.android.apps.recorder'', ''grecorder''),
     (''tv.trakt.trakt'', ''trakt''),
     (''com.candylink.openvpn'', ''candyvpn''),
     (''com.sony.songpal.mdr'', ''sonyheadphone''),
     (''com.dci.dev.androidtwelvewidgets'', ''androidtwelvewidgets''),
     (''io.yuka.android'', ''yuka''),
     (''free.reddit.news'', ''relay''),
     (''com.rubenmayayo.reddit'', ''boost''),
     (''com.andrewshu.android.reddit'', ''rif''),
     (''com.laurencedawson.reddit_sync'', ''sync''),
     (''ml.docilealligator.infinityforreddit'', ''infinity''),
     (''me.ccrama.redditslide'', ''slide''),
     (''com.onelouder.baconreader'', ''bacon''),
     (''com.google.android.youtube'', ''youtube''),
     (''com.google.android.apps.youtube.music'', ''youtube_music''),
     (''com.mgoogle.android.gms'', ''microg''),
     (''jp.pxv.android'', ''pixiv'')]"

text \<open>
  \<^verbatim>\<open>revanced_app_ids = {key: (value, "_" + value) for key, value in ...}\<close>:
  each package id with its short name and the name of its bucket attribute.
\<close>

definition revanced_app_ids :: "(string \<times> string \<times> string) list" where
  "revanced_app_ids = map (\<lambda>(key, val). (key, (val, ''_'' @ val))) raw_revanced_app_ids"

text \<open>
  \<^verbatim>\<open>get_package_name\<close>: the loop over \<^verbatim>\<open>revanced_app_ids.items()\<close> returns at
  the first entry whose short name is \<open>app\<close>, and raises once the items are
  exhausted.
\<close>

fun get_package_name_loop :: "(string \<times> string \<times> string) list \<Rightarrow> string \<Rightarrow> error + string" where
  "get_package_name_loop [] app = Inl (AppNotFound (''App '' @ app @ '' not supported yet.''))"
| "get_package_name_loop ((package, app_tuple) # items) app =
     (if fst app_tuple = app then Inr package else get_package_name_loop items app)"

definition get_package_name :: "string \<Rightarrow> error + string" where
  "get_package_name app = get_package_name_loop revanced_app_ids app"

text \<open>\<^verbatim>\<open>support_app\<close> returns the class attribute itself.\<close>

definition support_app :: "(string \<times> string) list" where
  "support_app = raw_revanced_app_ids"

subsection \<open>Data\<close>

text \<open>
  A patch descriptor of the manifest and the entries of its
  \<^verbatim>\<open>compatiblePackages\<close> (keys \<^verbatim>\<open>name\<close> and \<^verbatim>\<open>versions\<close>).
\<close>

record compatible_package =
  cp_name :: string
  cp_versions :: "string list"

record patch =
  name :: string
  description :: string
  compatiblePackages :: "compatible_package list"

text \<open>The dictionary \<^verbatim>\<open>p\<close> that indexing appends to a bucket.\<close>

record projected_patch =
  p_name :: string
  p_description :: string
  p_app :: string
  p_version :: string

text \<open>
  The instance dictionary of a \<^verbatim>\<open>Patches\<close> object: every attribute that
  \<^verbatim>\<open>setattr\<close> creates holds a bucket.
\<close>

type_synonym instance_dict = "string \<rightharpoonup> projected_patch list"

text \<open>
  Modelled from the spec: the application descriptor \<^verbatim>\<open>APP\<close> of
  \<^verbatim>\<open>src/app.py\<close> and the configuration \<^verbatim>\<open>RevancedConfig\<close> of
  \<^verbatim>\<open>src/config.py\<close> are not among the sources. The descriptor has the fields
  this module reads and writes; \<^verbatim>\<open>set_recommended_version\<close> stores the
  version and the flag it is given.
\<close>

record APP =
  app_name :: string
  app_version :: "string option"
  resource :: "string \<rightharpoonup> string"
  include_request :: "string list"
  exclude_request :: "string list"
  no_of_patches :: nat
  recommended_version :: string
  app_experiment :: bool

definition set_recommended_version :: "APP \<Rightarrow> string \<Rightarrow> bool \<Rightarrow> APP" where
  "set_recommended_version app version exp =
     app\<lparr>recommended_version := version, app_experiment := exp\<rparr>"

record RevancedConfig =
  temp_folder :: string

subsection \<open>Loading the manifest\<close>

text \<open>
  What \<^verbatim>\<open>open\<close> followed by \<^verbatim>\<open>json.load\<close> meets at a path: no file, a file
  that the decoder rejects, or a file that decodes to a value.
\<close>

datatype 'a file_state = NoSuchFile | NotJson | Json 'a

type_synonym 'a filesystem = "string \<Rightarrow> 'a file_state"

text \<open>
  \<^verbatim>\<open>PatchLoader.load_patches\<close>: the only handler is the one for
  \<^verbatim>\<open>FileNotFoundError\<close>; the decoder's exception passes through.
\<close>

definition load_patches :: "'a filesystem \<Rightarrow> string \<Rightarrow> error + 'a" where
  "load_patches fs file_name =
     (case fs file_name of
        NoSuchFile \<Rightarrow> Inl (PatchesJsonLoadFailed ''File not found'' file_name)
      | NotJson \<Rightarrow> Inl JSONDecodeError
      | Json patches \<Rightarrow> Inr patches)"

subsection \<open>Attribute access\<close>

text \<open>
  The objects an attribute read on a \<^verbatim>\<open>Patches\<close> instance can yield, as far as
  \<^verbatim>\<open>len\<close> tells them apart: a bucket, a dictionary with its number of keys,
  a string, and an object without length (a function, a method, a type).
\<close>

datatype pyobj = PatchList "projected_patch list" | Dict nat | Str string | NoLen

text \<open>The names bound in the body of \<^verbatim>\<open>class Patches\<close>.\<close>

definition class_attrs :: "(string \<times> pyobj) list" where
  "class_attrs =
    [(''__doc__'', Str ''Revanced Patches.''),
     (''_revanced_app_ids'', Dict (length raw_revanced_app_ids)),
     (''revanced_app_ids'', Dict (length revanced_app_ids)),
     (''get_package_name'', NoLen),
     (''support_app'', NoLen),
     (''fetch_patches'', NoLen),
     (''__init__'', NoLen),
     (''get'', NoLen),
     (''include_exclude_patch'', NoLen),
     (''get_app_configs'', NoLen)]"

text \<open>
  \<^verbatim>\<open>getattr(self, name)\<close>: the instance dictionary, then the class body, then
  what the interpreter gives every class and object (\<^verbatim>\<open>__class__\<close>,
  \<^verbatim>\<open>__module__\<close>, \<^verbatim>\<open>__dict__\<close> and the like), which is not part of the
  sources and is the parameter \<open>inherited\<close>.
\<close>

type_synonym inherited = "string \<Rightarrow> pyobj option"

definition getattr :: "inherited \<Rightarrow> instance_dict \<Rightarrow> string \<Rightarrow> error + pyobj" where
  "getattr inherited self attr =
     (case self attr of
        Some bucket \<Rightarrow> Inr (PatchList bucket)
      | None \<Rightarrow>
         (case map_of class_attrs attr of
            Some v \<Rightarrow> Inr v
          | None \<Rightarrow>
             (case inherited attr of
                Some v \<Rightarrow> Inr v
              | None \<Rightarrow> Inl (AttributeError attr))))"

definition len :: "pyobj \<Rightarrow> error + nat" where
  "len obj =
     (case obj of
        PatchList bucket \<Rightarrow> Inr (length bucket)
      | Dict n \<Rightarrow> Inr n
      | Str s \<Rightarrow> Inr (length s)
      | NoLen \<Rightarrow> Inl TypeError)"

text \<open>
  The bucket attributes are read under names that neither the class body nor
  the interpreter binds (\<^verbatim>\<open>universal_patch\<close> and the registry's
  \<^verbatim>\<open>"_" + value\<close>; the interpreter's names have the form \<^verbatim>\<open>__x__\<close>),
  so these reads are decided by the instance dictionary alone: a bucket when
  the attribute was set, \<^verbatim>\<open>AttributeError\<close> otherwise.
\<close>

definition getattr_bucket :: "instance_dict \<Rightarrow> string \<Rightarrow> error + projected_patch list" where
  "getattr_bucket self attr =
     (case self attr of
        Some bucket \<Rightarrow> Inr bucket
      | None \<Rightarrow> Inl (AttributeError attr))"

text \<open>\<^verbatim>\<open>getattr(self, attr).append(p)\<close>: the bucket grows in place.\<close>

definition append_attr :: "instance_dict \<Rightarrow> string \<Rightarrow> projected_patch \<Rightarrow> error + instance_dict" where
  "append_attr self attr p =
     (case getattr_bucket self attr of
        Inl e \<Rightarrow> Inl e
      | Inr bucket \<Rightarrow> Inr (self(attr \<mapsto> bucket @ [p])))"

subsection \<open>Indexing\<close>

text \<open>
  The two \<^verbatim>\<open>setattr\<close> steps of \<^verbatim>\<open>fetch_patches\<close>: an empty bucket under
  every registered attribute name, then an empty universal bucket.
\<close>

definition reset_buckets :: "instance_dict \<Rightarrow> instance_dict" where
  "reset_buckets self =
     (fold (\<lambda>bucket_name s. s(bucket_name \<mapsto> []))
           (map (\<lambda>(x, app_tuple). snd app_tuple) revanced_app_ids) self)
       (''universal_patch'' \<mapsto> [])"

text \<open>
  The dictionary \<^verbatim>\<open>p\<close> built for a registered compatible package:
  \<^verbatim>\<open>version[-1]\<close> reads the element at index \<^verbatim>\<open>len(version) - 1\<close>.
\<close>

definition app_projection :: "patch \<Rightarrow> string \<Rightarrow> string list \<Rightarrow> projected_patch" where
  "app_projection patch compatible_package version =
     \<lparr>p_name = name patch, p_description = description patch,
      p_app = compatible_package,
      p_version = (if version \<noteq> [] then version ! (length version - 1) else ''all'')\<rparr>"

text \<open>
  The inner loop over \<^verbatim>\<open>(x["name"], x["versions"])\<close>. A loop returns the
  exception that ended it, if any, and the instance as it was left.
\<close>

fun index_packages ::
  "patch \<Rightarrow> compatible_package list \<Rightarrow> instance_dict \<Rightarrow> error option \<times> instance_dict" where
  "index_packages patch [] self = (None, self)"
| "index_packages patch (x # xs) self =
     (let compatible_package = cp_name x; version = cp_versions x in
      case map_of revanced_app_ids compatible_package of
        None \<Rightarrow> index_packages patch xs self
      | Some app_tuple \<Rightarrow>
          (let bucket_name = snd app_tuple;
               p = app_projection patch compatible_package version
           in case append_attr self bucket_name p of
                Inl e \<Rightarrow> (Some e, self)
              | Inr self' \<Rightarrow> index_packages patch xs self'))"

text \<open>
  One round of the outer loop, for one patch of the manifest: the universal
  projection when \<^verbatim>\<open>compatiblePackages\<close> is empty, then the inner loop.
\<close>

definition universal_projection :: "patch \<Rightarrow> projected_patch" where
  "universal_projection patch =
     \<lparr>p_name = name patch, p_description = description patch,
      p_app = ''universal'', p_version = ''all''\<rparr>"

definition index_patch :: "patch \<Rightarrow> instance_dict \<Rightarrow> error option \<times> instance_dict" where
  "index_patch patch self =
     (case (if compatiblePackages patch = []
            then append_attr self ''universal_patch'' (universal_projection patch)
            else Inr self) of
        Inl e \<Rightarrow> (Some e, self)
      | Inr self' \<Rightarrow> index_packages patch (compatiblePackages patch) self')"

fun index_patches :: "patch list \<Rightarrow> instance_dict \<Rightarrow> error option \<times> instance_dict" where
  "index_patches [] self = (None, self)"
| "index_patches (patch # patches) self =
     (case index_patch patch self of
        (Some e, self') \<Rightarrow> (Some e, self')
      | (None, self') \<Rightarrow> index_patches patches self')"

text \<open>
  \<^verbatim>\<open>fetch_patches\<close>: the result is what the call returns or raises, with the
  instance as the call leaves it. The descriptor is returned with its patch
  count assigned.
\<close>

definition fetch_patches ::
  "inherited \<Rightarrow> patch list filesystem \<Rightarrow> instance_dict \<Rightarrow> RevancedConfig \<Rightarrow> APP
     \<Rightarrow> (error + APP) \<times> instance_dict" where
  "fetch_patches inherited fs self config app =
     (case resource app ''patches_json'' of
        None \<Rightarrow> (Inl (KeyError ''patches_json''), self)
      | Some file_name \<Rightarrow>
         (case load_patches fs (temp_folder config @ ''/'' @ file_name) of
            Inl e \<Rightarrow> (Inl e, self)
          | Inr patches \<Rightarrow>
             (case index_patches patches (reset_buckets self) of
                (Some e, self') \<Rightarrow> (Inl e, self')
              | (None, self') \<Rightarrow>
                 (case getattr inherited self' (''_'' @ app_name app) of
                    Inl e \<Rightarrow> (Inl e, self')
                  | Inr obj \<Rightarrow>
                     (case len obj of
                        Inl e \<Rightarrow> (Inl e, self')
                      | Inr n_patches \<Rightarrow> (Inr (app\<lparr>no_of_patches := n_patches\<rparr>), self'))))))"

text \<open>
  The constructor runs \<^verbatim>\<open>fetch_patches\<close> on a fresh instance; when that
  raises, no object is returned.
\<close>

definition Patches_init ::
  "inherited \<Rightarrow> patch list filesystem \<Rightarrow> RevancedConfig \<Rightarrow> APP \<Rightarrow> error + (instance_dict \<times> APP)" where
  "Patches_init inherited fs config app =
     (case fetch_patches inherited fs Map.empty config app of
        (Inl e, self) \<Rightarrow> Inl e
      | (Inr app', self) \<Rightarrow> Inr (self, app'))"

subsection \<open>Selection\<close>

text \<open>
  The dictionary \<^verbatim>\<open>app_names\<close> of \<^verbatim>\<open>get\<close>, from short name to attribute
  name; in a dictionary comprehension a later item replaces an earlier one with
  the same key.
\<close>

definition app_names :: "string \<rightharpoonup> string" where
  "app_names = map_of (rev (map (\<lambda>(key, val). (fst val, snd val)) revanced_app_ids))"

text \<open>
  \<^verbatim>\<open>next(i["version"] for i in patches if i["version"] != "all")\<close>;
  \<open>None\<close> is \<^verbatim>\<open>StopIteration\<close>.
\<close>

fun next_version :: "projected_patch list \<Rightarrow> string option" where
  "next_version [] = None"
| "next_version (i # patches) =
     (if p_version i \<noteq> ''all'' then Some (p_version i) else next_version patches)"

definition get :: "instance_dict \<Rightarrow> string \<Rightarrow> error + (projected_patch list \<times> string)" where
  "get self app =
     (case app_names app of
        None \<Rightarrow> Inl (AppNotFound (''App '' @ app @ '' not supported yet.''))
      | Some bucket_name \<Rightarrow>
         (if bucket_name = [] then Inl (AppNotFound (''App '' @ app @ '' not supported yet.''))
          else
           (case getattr_bucket self bucket_name of
              Inl e \<Rightarrow> Inl e
            | Inr patches \<Rightarrow>
               Inr (patches,
                    (case next_version patches of
                       None \<Rightarrow> ''latest''
                     | Some version \<Rightarrow> version)))))"

text \<open>
  \<^verbatim>\<open>get_app_configs\<close>: an empty requested version is as false as \<^verbatim>\<open>None\<close>;
  the two comparisons are those of Python strings.
\<close>

definition get_app_configs :: "instance_dict \<Rightarrow> APP \<Rightarrow> error + (projected_patch list \<times> APP)" where
  "get_app_configs self app =
     (case get self (app_name app) of
        Inl e \<Rightarrow> Inl e
      | Inr (total_patches, recommended) \<Rightarrow>
         (case app_version app of
            None \<Rightarrow> Inr (total_patches, set_recommended_version app recommended False)
          | Some requested \<Rightarrow>
             (if requested = [] then
                Inr (total_patches, set_recommended_version app recommended False)
              else
                Inr (total_patches,
                     set_recommended_version app requested
                       (requested = ''latest'' \<or> requested > recommended
                          \<or> requested < recommended)))))"

subsection \<open>Filtering\<close>

text \<open>
  \<^verbatim>\<open>str.lower\<close> is the interpreter's: it lower-cases every cased letter of
  Unicode, by a table that is not part of the sources. It is the parameter
  \<open>lower\<close> of the functions below.
\<close>

text \<open>
  \<^verbatim>\<open>s.replace(old, new)\<close> for an \<open>old\<close> of one ASCII character, as in the only
  call of the source, \<^verbatim>\<open>replace(" ", "-")\<close>: in UTF-8 such a byte occurs only
  as that character, and every occurrence is replaced.
\<close>

fun replace :: "char \<Rightarrow> string \<Rightarrow> string \<Rightarrow> string" where
  "replace old new [] = []"
| "replace old new (c # s) =
     (if c = old then new @ replace old new s else c # replace old new s)"

text \<open>The calls the parser receives, in order.\<close>

datatype parser_call = Include string | Exclude string

text \<open>
  The operands of the membership test of the second loop: a requested name is
  a string, an element of \<^verbatim>\<open>universal_patch\<close> is a dictionary, and Python's
  \<^verbatim>\<open>==\<close> never equates the two.
\<close>

datatype pyvalue = PyStr string | PyPatch projected_patch

fun first_loop ::
  "(string \<Rightarrow> string) \<Rightarrow> string list \<Rightarrow> projected_patch list \<Rightarrow> parser_call list
     \<Rightarrow> parser_call list" where
  "first_loop lower excl [] parser = parser"
| "first_loop lower excl (patch # patches) parser =
     (let normalized_patch = replace (CHR '' '') ''-'' (lower (p_name patch)) in
      first_loop lower excl patches
        (if normalized_patch \<notin> set excl then parser @ [Include normalized_patch]
         else parser @ [Exclude normalized_patch]))"

fun second_loop :: "pyvalue list \<Rightarrow> string list \<Rightarrow> parser_call list \<Rightarrow> parser_call list" where
  "second_loop universal [] parser = parser"
| "second_loop universal (normalized_patch # requests) parser =
     second_loop universal requests
       (if PyStr normalized_patch \<notin> set universal then parser @ [Include normalized_patch]
        else parser)"

definition include_exclude_patch ::
  "(string \<Rightarrow> string) \<Rightarrow> instance_dict \<Rightarrow> APP \<Rightarrow> parser_call list \<Rightarrow> projected_patch list
     \<Rightarrow> parser_call list" where
  "include_exclude_patch lower self app parser patches =
     second_loop
       (map PyPatch (case self ''universal_patch'' of None \<Rightarrow> [] | Some bucket \<Rightarrow> bucket))
       (include_request app)
       (first_loop lower (exclude_request app) patches parser)"

subsection \<open>Example inputs\<close>

text \<open>
  A manifest with a patch for every application, a patch for Spotify without
  versions, a patch for Spotify at two versions, and a patch for an application
  that is not registered.
\<close>

definition patch_A :: patch where
  "patch_A = \<lparr>name = ''A'', description = ''d'', compatiblePackages = []\<rparr>"

definition patch_B :: patch where
  "patch_B = \<lparr>name = ''B'', description = ''d2'', compatiblePackages =
     [\<lparr>cp_name = ''com.spotify.music'', cp_versions = [''1.0'', ''1.1'']\<rparr>]\<rparr>"

definition patch_C :: patch where
  "patch_C = \<lparr>name = ''C'', description = ''d3'', compatiblePackages =
     [\<lparr>cp_name = ''org.example.app'', cp_versions = [''3.0'']\<rparr>]\<rparr>"

definition patch_D :: patch where
  "patch_D = \<lparr>name = ''My Patch'', description = ''d4'', compatiblePackages =
     [\<lparr>cp_name = ''com.spotify.music'', cp_versions = []\<rparr>]\<rparr>"

definition manifest_example :: "patch list" where
  "manifest_example = [patch_A, patch_D, patch_B, patch_C]"

text \<open>A temporary folder with that manifest and with a file that is not JSON.\<close>

definition fs_example :: "patch list filesystem" where
  "fs_example path =
     (if path = ''/tmp/patches.json'' then Json manifest_example
      else if path = ''/tmp/broken.json'' then NotJson
      else NoSuchFile)"

definition config_example :: RevancedConfig where
  "config_example = \<lparr>temp_folder = ''/tmp''\<rparr>"

text \<open>A descriptor for an application name and a requested version.\<close>

definition app_example :: "string \<Rightarrow> string option \<Rightarrow> APP" where
  "app_example app version =
     \<lparr>app_name = app, app_version = version,
      resource = [''patches_json'' \<mapsto> ''patches.json''],
      include_request = [''custom-branding'', ''A''], exclude_request = [''my-patch''],
      no_of_patches = 0, recommended_version = '''', app_experiment = False\<rparr>"

text \<open>Two of the attributes that every object has.\<close>

definition inherited_example :: inherited where
  "inherited_example attr =
     (if attr = ''__class__'' then Some NoLen
      else if attr = ''__module__'' then Some (Str ''src.patches'')
      else None)"

text \<open>The buckets of a \<^verbatim>\<open>Patches\<close> object built from the example manifest.\<close>

definition self_example :: instance_dict where
  "self_example = snd (index_patches manifest_example (reset_buckets Map.empty))"

text \<open>The Spotify bucket of that object.\<close>

definition spotify_bucket_example :: "projected_patch list" where
  "spotify_bucket_example =
    [\<lparr>p_name = ''My Patch'', p_description = ''d4'', p_app = ''com.spotify.music'',
      p_version = ''all''\<rparr>,
     \<lparr>p_name = ''B'', p_description = ''d2'', p_app = ''com.spotify.music'', p_version = ''1.1''\<rparr>]"

text \<open>
  What \<^verbatim>\<open>str.lower\<close> does on a string of ASCII characters: the letters A to Z
  become a to z. It stands for \<^verbatim>\<open>str.lower\<close> at the example bucket, whose
  names are ASCII.
\<close>

definition ascii_lower :: "string \<Rightarrow> string" where
  "ascii_lower s =
     map (\<lambda>c. if CHR ''A'' \<le> c \<and> c \<le> CHR ''Z'' then char_of (of_char c + (32::nat)) else c) s"

section \<open>Properties\<close>

subsection \<open>The registry\<close>

lemma distinct_short_names: "distinct (map snd raw_revanced_app_ids)"
  unfolding raw_revanced_app_ids_def by simp

lemma distinct_package_ids: "distinct (map fst raw_revanced_app_ids)"
  unfolding raw_revanced_app_ids_def by simp

lemma length_registry: "length raw_revanced_app_ids = 40"
  unfolding raw_revanced_app_ids_def by simp

lemma loop_not_found:
  "app \<notin> set (map (\<lambda>(package, app_tuple). fst app_tuple) items) \<Longrightarrow>
   get_package_name_loop items app = Inl (AppNotFound (''App '' @ app @ '' not supported yet.''))"
  by (induction items) auto

lemma loop_found:
  "distinct (map (\<lambda>(package, app_tuple). fst app_tuple) items) \<Longrightarrow>
   (package, app_tuple) \<in> set items \<Longrightarrow>
   get_package_name_loop items (fst app_tuple) = Inr package"
proof (induction items)
  case Nil
  then show ?case by simp
next
  case (Cons it items)
  obtain q t where it: "it = (q, t)" by (cases it)
  show ?case
  proof (cases "(package, app_tuple) = it")
    case True
    then show ?thesis using it by simp
  next
    case False
    with Cons.prems have mem: "(package, app_tuple) \<in> set items" by simp
    then have "fst app_tuple \<in> set (map (\<lambda>(package, app_tuple). fst app_tuple) items)"
      by force
    moreover from Cons.prems(1) it
    have "fst t \<notin> set (map (\<lambda>(package, app_tuple). fst app_tuple) items)" by simp
    ultimately have "fst t \<noteq> fst app_tuple" by metis
    moreover from Cons.prems(1) have "distinct (map (\<lambda>(package, app_tuple). fst app_tuple) items)"
      by simp
    ultimately show ?thesis using Cons.IH mem it by simp
  qed
qed

lemma short_names_of_registry:
  "map (\<lambda>(package, app_tuple). fst app_tuple) revanced_app_ids = map snd raw_revanced_app_ids"
  by (simp add: revanced_app_ids_def case_prod_beta comp_def)

lemma package_ids_of_registry: "map fst revanced_app_ids = map fst raw_revanced_app_ids"
  by (simp add: revanced_app_ids_def case_prod_beta comp_def)

lemma bucket_names_of_registry:
  "map (\<lambda>(x, app_tuple). snd app_tuple) revanced_app_ids = map (\<lambda>(key, val). ''_'' @ val) raw_revanced_app_ids"
  by (simp add: revanced_app_ids_def case_prod_beta comp_def)

text \<open>
  Claim C9. For every package id \<open>p\<close> of the registry, \<open>get_package_name\<close> applied
  to the short name that \<open>support_app\<close> gives for \<open>p\<close> returns \<open>p\<close>.
\<close>

theorem get_package_name_support_app:
  assumes "map_of support_app p = Some s"
  shows "get_package_name s = Inr p"
proof -
  from assms have "(p, s) \<in> set raw_revanced_app_ids"
    by (simp add: support_app_def map_of_SomeD)
  then have "(p, (s, ''_'' @ s)) \<in> set revanced_app_ids"
    by (force simp: revanced_app_ids_def)
  moreover have "distinct (map (\<lambda>(package, app_tuple). fst app_tuple) revanced_app_ids)"
    by (simp only: short_names_of_registry distinct_short_names)
  ultimately have "get_package_name_loop revanced_app_ids (fst (s, ''_'' @ s)) = Inr p"
    by (rule loop_found[rotated])
  then show ?thesis by (simp add: get_package_name_def)
qed

theorem get_package_name_support_app_witness:
  "map_of support_app ''com.spotify.music'' = Some ''spotify'' \<and>
   get_package_name ''spotify'' = Inr ''com.spotify.music''"
proof -
  have h: "map_of support_app ''com.spotify.music'' = Some ''spotify''"
    by (simp add: support_app_def raw_revanced_app_ids_def)
  from get_package_name_support_app[OF h] h show ?thesis by simp
qed

lemma app_names_None: "app \<notin> set (map snd raw_revanced_app_ids) \<Longrightarrow> app_names app = None"
proof -
  assume a: "app \<notin> set (map snd raw_revanced_app_ids)"
  have "fst ` set (rev (map (\<lambda>(key, val). (fst val, snd val)) revanced_app_ids))
        = set (map snd raw_revanced_app_ids)"
    by (force simp: revanced_app_ids_def)
  with a show ?thesis
    unfolding app_names_def by (simp add: map_of_eq_None_iff)
qed

lemma map_of_graph:
  "k \<in> set ks \<Longrightarrow> map_of (map (\<lambda>k. (k, f k)) ks) k = Some (f k)"
  by (induction ks) auto

lemma map_of_rev_graph:
  "k \<in> set ks \<Longrightarrow> map_of (rev (map (\<lambda>k. (k, f k)) ks)) k = Some (f k)"
  by (metis map_of_graph rev_map set_rev)

lemma app_names_Some:
  assumes "app \<in> set (map snd raw_revanced_app_ids)"
  shows "app_names app = Some (''_'' @ app)"
proof -
  have "map (\<lambda>(key, val). (fst val, snd val)) revanced_app_ids
        = map (\<lambda>k. (k, ''_'' @ k)) (map snd raw_revanced_app_ids)"
    by (simp add: revanced_app_ids_def case_prod_beta comp_def)
  then show ?thesis
    unfolding app_names_def using map_of_rev_graph[OF assms, of "\<lambda>k. ''_'' @ k"] by simp
qed

text \<open>
  Claim C8. For every string that is no entry's short name, both
  \<open>get_package_name\<close> and \<open>get\<close> raise \<open>AppNotFound\<close>, whatever the instance holds.
\<close>

theorem unknown_app_not_found:
  assumes "app \<notin> set (map snd support_app)"
  shows "get_package_name app = Inl (AppNotFound (''App '' @ app @ '' not supported yet.''))
       \<and> get self app = Inl (AppNotFound (''App '' @ app @ '' not supported yet.''))"
proof
  from assms have "app \<notin> set (map (\<lambda>(package, app_tuple). fst app_tuple) revanced_app_ids)"
    by (simp add: short_names_of_registry support_app_def)
  then show "get_package_name app = Inl (AppNotFound (''App '' @ app @ '' not supported yet.''))"
    unfolding get_package_name_def by (rule loop_not_found)
next
  from assms have "app_names app = None"
    by (simp add: support_app_def app_names_None)
  then show "get self app = Inl (AppNotFound (''App '' @ app @ '' not supported yet.''))"
    by (simp add: get_def)
qed

theorem unknown_app_not_found_witness:
  "''facebook'' \<notin> set (map snd support_app) \<and>
   get_package_name ''facebook'' = Inl (AppNotFound ''App facebook not supported yet.'') \<and>
   get Map.empty ''facebook'' = Inl (AppNotFound ''App facebook not supported yet.'')"
proof -
  have h: "''facebook'' \<notin> set (map snd support_app)"
    by (simp add: support_app_def raw_revanced_app_ids_def)
  from unknown_app_not_found[OF h, of Map.empty] h show ?thesis by simp
qed

subsection \<open>Indexing\<close>

lemma append_attr_Some:
  "self attr = Some bucket \<Longrightarrow> append_attr self attr p = Inr (self(attr \<mapsto> bucket @ [p]))"
  by (simp add: append_attr_def getattr_bucket_def)

lemma append_attr_None:
  "self attr = None \<Longrightarrow> append_attr self attr p = Inl (AttributeError attr)"
  by (simp add: append_attr_def getattr_bucket_def)

lemma app_projection_last:
  "app_projection patch pkg version =
     \<lparr>p_name = name patch, p_description = description patch, p_app = pkg,
      p_version = (if version = [] then ''all'' else last version)\<rparr>"
  by (simp add: app_projection_def last_conv_nth)

lemma registry_lookup:
  "map_of revanced_app_ids pkg = map_option (\<lambda>val. (val, ''_'' @ val)) (map_of raw_revanced_app_ids pkg)"
  by (simp add: revanced_app_ids_def map_of_map)

lemma index_packages_effect:
  assumes "\<forall>q t. map_of revanced_app_ids q = Some t \<longrightarrow> self (snd t) \<noteq> None"
  shows "index_packages patch xs self =
           (None, \<lambda>b. map_option
              (\<lambda>bucket. bucket @ map (\<lambda>x. app_projection patch (cp_name x) (cp_versions x))
                  (filter (\<lambda>x. map_option snd (map_of revanced_app_ids (cp_name x)) = Some b) xs))
              (self b))"
  using assms
proof (induction xs arbitrary: self)
  case Nil
  show ?case by (simp add: option.map_ident)
next
  case (Cons x xs)
  show ?case
  proof (cases "map_of revanced_app_ids (cp_name x)")
    case None
    then show ?thesis using Cons.IH[OF Cons.prems] by simp
  next
    case (Some t)
    obtain short b0 where t: "t = (short, b0)" by (cases t)
    from Some Cons.prems obtain bucket where b: "self (snd t) = Some bucket" by blast
    let ?self' = "self(snd t \<mapsto> bucket @ [app_projection patch (cp_name x) (cp_versions x)])"
    have inv': "\<forall>q t. map_of revanced_app_ids q = Some t \<longrightarrow> ?self' (snd t) \<noteq> None"
      using Cons.prems by simp
    have step: "index_packages patch (x # xs) self = index_packages patch xs ?self'"
      using Some b by (simp add: append_attr_Some)
    show ?thesis
      unfolding step Cons.IH[OF inv']
      using Some b t by (auto simp: fun_eq_iff)
  qed
qed

lemma index_patch_effect:
  assumes "\<forall>q t. map_of revanced_app_ids q = Some t \<longrightarrow> self (snd t) \<noteq> None"
    and "self ''universal_patch'' \<noteq> None"
  shows "index_patch patch self =
           (None, \<lambda>b. map_option
              (\<lambda>bucket. bucket
                  @ (if b = ''universal_patch'' \<and> compatiblePackages patch = []
                     then [universal_projection patch] else [])
                  @ map (\<lambda>x. app_projection patch (cp_name x) (cp_versions x))
                  (filter (\<lambda>x. map_option snd (map_of revanced_app_ids (cp_name x)) = Some b)
                     (compatiblePackages patch)))
              (self b))"
proof (cases "compatiblePackages patch = []")
  case True
  from assms(2) obtain u where u: "self ''universal_patch'' = Some u" by blast
  show ?thesis
    using True u by (auto simp: index_patch_def append_attr_Some fun_eq_iff option.map_ident)
next
  case False
  then show ?thesis
    by (simp add: index_patch_def index_packages_effect[OF assms(1)])
qed

lemma index_patches_effect:
  assumes "\<forall>q t. map_of revanced_app_ids q = Some t \<longrightarrow> self (snd t) \<noteq> None"
    and "self ''universal_patch'' \<noteq> None"
  shows "index_patches patches self =
           (None, \<lambda>b. map_option
              (\<lambda>bucket. bucket @ concat (map (\<lambda>patch.
                   (if b = ''universal_patch'' \<and> compatiblePackages patch = []
                     then [universal_projection patch] else [])
                  @ map (\<lambda>x. app_projection patch (cp_name x) (cp_versions x))
                  (filter (\<lambda>x. map_option snd (map_of revanced_app_ids (cp_name x)) = Some b)
                     (compatiblePackages patch))) patches))
              (self b))"
  using assms
proof (induction patches arbitrary: self)
  case Nil
  show ?case by (simp add: option.map_ident)
next
  case (Cons patch patches)
  let ?self' = "\<lambda>b. map_option
              (\<lambda>bucket. bucket
                  @ (if b = ''universal_patch'' \<and> compatiblePackages patch = []
                     then [universal_projection patch] else [])
                  @ map (\<lambda>x. app_projection patch (cp_name x) (cp_versions x))
                  (filter (\<lambda>x. map_option snd (map_of revanced_app_ids (cp_name x)) = Some b)
                     (compatiblePackages patch)))
              (self b)"
  have step: "index_patch patch self = (None, ?self')"
    using Cons.prems by (rule index_patch_effect)
  have inv1: "\<forall>q t. map_of revanced_app_ids q = Some t \<longrightarrow> ?self' (snd t) \<noteq> None"
    using Cons.prems(1) by simp
  have inv2: "?self' ''universal_patch'' \<noteq> None"
    using Cons.prems(2) by simp
  show ?case
    by (simp only: index_patches.simps step prod.case option.case Cons.IH[OF inv1 inv2])
       (auto simp: fun_eq_iff option.map_comp comp_def)
qed

lemma fold_reset:
  "fold (\<lambda>bucket_name s. s(bucket_name \<mapsto> [])) ks self b = (if b \<in> set ks then Some [] else self b)"
  by (induction ks arbitrary: self) auto

lemma reset_buckets_apply:
  "reset_buckets self b =
     (if b = ''universal_patch'' \<or> b \<in> set (map (\<lambda>(x, app_tuple). snd app_tuple) revanced_app_ids)
      then Some [] else self b)"
  by (simp add: reset_buckets_def fold_reset)

lemma registered_bucket_name:
  assumes "map_of revanced_app_ids q = Some t"
  shows "snd t \<in> set (map (\<lambda>(x, app_tuple). snd app_tuple) revanced_app_ids)"
proof -
  from assms have "(q, t) \<in> set revanced_app_ids" by (rule map_of_SomeD)
  then show ?thesis by force
qed

lemma registered_tuple:
  assumes "map_of revanced_app_ids q = Some t"
  shows "(q, fst t) \<in> set raw_revanced_app_ids \<and> snd t = ''_'' @ fst t"
proof -
  from assms obtain v where "map_of raw_revanced_app_ids q = Some v" "t = (v, ''_'' @ v)"
    by (auto simp: registry_lookup)
  then show ?thesis by (auto dest: map_of_SomeD)
qed

lemma bucket_name_not_universal:
  "map_of revanced_app_ids q = Some t \<Longrightarrow> snd t \<noteq> ''universal_patch''"
  by (auto dest: registered_tuple)

lemma bucket_name_inj:
  assumes "map_of revanced_app_ids q = Some t" and "map_of revanced_app_ids q' = Some t'"
    and "snd t = snd t'"
  shows "q = q'"
proof -
  from assms have "(q, fst t) \<in> set raw_revanced_app_ids" "(q', fst t) \<in> set raw_revanced_app_ids"
    by (auto dest!: registered_tuple)
  moreover have "inj_on snd (set raw_revanced_app_ids)"
    using distinct_short_names by (simp add: distinct_map)
  ultimately have "(q, fst t) = (q', fst t)"
    by (intro inj_onD[of snd "set raw_revanced_app_ids"]) simp_all
  then show ?thesis by simp
qed

lemma underscore_bucket_name:
  "''_'' @ a \<in> set (map (\<lambda>(x, app_tuple). snd app_tuple) revanced_app_ids)
     \<longleftrightarrow> a \<in> set (map snd raw_revanced_app_ids)"
  by (force simp: bucket_names_of_registry)

lemma reset_buckets_inv:
  "\<forall>q t. map_of revanced_app_ids q = Some t \<longrightarrow> reset_buckets self (snd t) \<noteq> None"
proof (intro allI impI)
  fix q t
  assume "map_of revanced_app_ids q = Some t"
  then have "snd t \<in> set (map (\<lambda>(x, app_tuple). snd app_tuple) revanced_app_ids)"
    by (rule registered_bucket_name)
  then show "reset_buckets self (snd t) \<noteq> None"
    by (simp only: reset_buckets_apply) simp
qed

lemma reset_buckets_universal: "reset_buckets self ''universal_patch'' \<noteq> None"
  by (simp add: reset_buckets_apply)

lemma index_patches_reset:
  "index_patches patches (reset_buckets self) =
           (None, \<lambda>b. map_option
              (\<lambda>bucket. bucket @ concat (map (\<lambda>patch.
                   (if b = ''universal_patch'' \<and> compatiblePackages patch = []
                     then [universal_projection patch] else [])
                  @ map (\<lambda>x. app_projection patch (cp_name x) (cp_versions x))
                  (filter (\<lambda>x. map_option snd (map_of revanced_app_ids (cp_name x)) = Some b)
                     (compatiblePackages patch))) patches))
              (reset_buckets self b))"
  by (rule index_patches_effect[OF reset_buckets_inv reset_buckets_universal])

lemma index_patches_reset_bucket:
  assumes "map_of revanced_app_ids pkg = Some (short, bucket_name)"
  shows "snd (index_patches patches (reset_buckets self)) bucket_name =
     Some (concat (map (\<lambda>patch. map (\<lambda>x. app_projection patch pkg (cp_versions x))
                     (filter (\<lambda>x. cp_name x = pkg) (compatiblePackages patch))) patches))"
proof -
  have sel: "(map_option snd (map_of revanced_app_ids q) = Some bucket_name) = (q = pkg)" for q
  proof
    assume "map_option snd (map_of revanced_app_ids q) = Some bucket_name"
    then obtain t where "map_of revanced_app_ids q = Some t" "snd t = bucket_name" by auto
    then show "q = pkg" using bucket_name_inj[OF _ assms, of q t] by simp
  next
    assume "q = pkg"
    then show "map_option snd (map_of revanced_app_ids q) = Some bucket_name"
      using assms by simp
  qed
  have nu: "(bucket_name = ''universal_patch'') = False"
    using bucket_name_not_universal[OF assms] by simp
  have reg: "reset_buckets self bucket_name = Some []"
    using registered_bucket_name[OF assms] by (simp only: reset_buckets_apply) simp
  have eq: "map (\<lambda>x. app_projection patch (cp_name x) (cp_versions x))
            (filter (\<lambda>x. cp_name x = pkg) xs)
        = map (\<lambda>x. app_projection patch pkg (cp_versions x)) (filter (\<lambda>x. cp_name x = pkg) xs)"
    for patch and xs :: "compatible_package list" by (induction xs) auto
  show ?thesis
    by (simp only: index_patches_reset snd_conv sel nu reg eq)
       simp
qed

lemma index_patches_reset_universal:
  "snd (index_patches patches (reset_buckets self)) ''universal_patch'' =
     Some (map universal_projection (filter (\<lambda>patch. compatiblePackages patch = []) patches))"
proof -
  have no: "(map_option snd (map_of revanced_app_ids q) = Some ''universal_patch'') = False" for q
    using bucket_name_not_universal[of q] by (cases "map_of revanced_app_ids q") auto
  have eq: "concat (map (\<lambda>patch. if compatiblePackages patch = [] then [universal_projection patch] else []) ps)
        = map universal_projection (filter (\<lambda>patch. compatiblePackages patch = []) ps)"
    for ps :: "patch list"
    by (induction ps) auto
  have univ: "reset_buckets self ''universal_patch'' = Some []"
    by (simp only: reset_buckets_apply) simp
  show ?thesis
    by (simp only: index_patches_reset snd_conv no univ) (simp add: eq)
qed

lemma index_patches_reset_other:
  assumes "b \<noteq> ''universal_patch''"
    and "b \<notin> set (map (\<lambda>(x, app_tuple). snd app_tuple) revanced_app_ids)"
  shows "snd (index_patches patches (reset_buckets self)) b = self b"
proof -
  have no: "(map_option snd (map_of revanced_app_ids q) = Some b) = False" for q
  proof (cases "map_of revanced_app_ids q")
    case None
    then show ?thesis by simp
  next
    case (Some t)
    from registered_bucket_name[OF Some] assms(2) have "snd t \<noteq> b" by metis
    with Some show ?thesis by simp
  qed
  have same: "reset_buckets self b = self b"
    using assms by (simp only: reset_buckets_apply) simp
  have nil: "concat (map (\<lambda>patch. []) ps) = []" for ps :: "patch list"
    by (induction ps) auto
  show ?thesis
    using assms(1)
    by (simp only: index_patches_reset snd_conv no same) (simp add: nil option.map_ident)
qed

lemma index_patches_reset_ok: "fst (index_patches patches (reset_buckets self)) = None"
  by (simp only: index_patches_reset fst_conv)

text \<open>
  The bucket names are bound in no class body entry, so that reading them
  through \<open>getattr_bucket\<close> is reading them through \<open>getattr\<close>.
\<close>

lemma class_attrs_no_bucket_name:
  assumes "map_of revanced_app_ids q = Some t"
  shows "map_of class_attrs (snd t) = None"
proof -
  have all: "\<forall>s \<in> set (map snd raw_revanced_app_ids). ''_'' @ s \<notin> set (map fst class_attrs)"
    by (simp add: raw_revanced_app_ids_def class_attrs_def)
  from registered_tuple[OF assms] have "fst t \<in> set (map snd raw_revanced_app_ids)"
    and "snd t = ''_'' @ fst t" by force+
  with all have "snd t \<notin> set (map fst class_attrs)" by metis
  then show ?thesis by (simp add: map_of_eq_None_iff)
qed

lemma class_attrs_no_universal_patch: "map_of class_attrs ''universal_patch'' = None"
  by (simp add: class_attrs_def)

lemma getattr_of_bucket_name:
  assumes "map_of class_attrs attr = None" and "inherited attr = None"
  shows "getattr inherited self attr = map_sum id PatchList (getattr_bucket self attr)"
  using assms by (simp add: getattr_def getattr_bucket_def split: option.splits)

lemma spotify_registered:
  "map_of revanced_app_ids ''com.spotify.music'' = Some (''spotify'', ''_spotify'')"
  by (simp add: revanced_app_ids_def raw_revanced_app_ids_def)

lemma example_unregistered: "map_of revanced_app_ids ''org.example.app'' = None"
  by (simp add: revanced_app_ids_def raw_revanced_app_ids_def)

lemma self_example_spotify: "self_example ''_spotify'' = Some spotify_bucket_example"
  unfolding self_example_def
  by (simp only: index_patches_reset_bucket[OF spotify_registered])
     (simp add: manifest_example_def patch_A_def patch_B_def patch_C_def patch_D_def spotify_bucket_example_def app_projection_def)

lemma self_example_universal:
  "self_example ''universal_patch'' =
     Some [\<lparr>p_name = ''A'', p_description = ''d'', p_app = ''universal'', p_version = ''all''\<rparr>]"
  unfolding self_example_def
  by (simp only: index_patches_reset_universal)
     (simp add: manifest_example_def patch_A_def patch_B_def patch_C_def patch_D_def universal_projection_def)

text \<open>
  Claim C5. After indexing a manifest, the bucket of a registered package holds
  one projection for every compatible-package entry that names the package, in
  manifest order, and the version of each is the last element of the entry's
  versions, or \<open>''all''\<close> when the entry has none. The loop raises nothing.
\<close>

theorem indexed_bucket_versions:
  assumes "map_of revanced_app_ids pkg = Some (short, bucket_name)"
  shows "fst (index_patches patches (reset_buckets self)) = None \<and>
    snd (index_patches patches (reset_buckets self)) bucket_name =
     Some (concat (map (\<lambda>patch.
        map (\<lambda>x. \<lparr>p_name = name patch, p_description = description patch, p_app = pkg,
                   p_version = (if cp_versions x = [] then ''all'' else last (cp_versions x))\<rparr>)
            (filter (\<lambda>x. cp_name x = pkg) (compatiblePackages patch))) patches))"
  by (simp only: index_patches_reset_ok index_patches_reset_bucket[OF assms] app_projection_last)

theorem indexed_bucket_versions_witness:
  "map_of revanced_app_ids ''com.spotify.music'' = Some (''spotify'', ''_spotify'') \<and>
   fst (index_patches manifest_example (reset_buckets Map.empty)) = None \<and>
   snd (index_patches manifest_example (reset_buckets Map.empty)) ''_spotify'' =
     Some [\<lparr>p_name = ''My Patch'', p_description = ''d4'', p_app = ''com.spotify.music'',
            p_version = ''all''\<rparr>,
           \<lparr>p_name = ''B'', p_description = ''d2'', p_app = ''com.spotify.music'', p_version = ''1.1''\<rparr>]"
  using indexed_bucket_versions[OF spotify_registered, of manifest_example Map.empty]
    spotify_registered
  by (simp add: manifest_example_def patch_A_def patch_B_def patch_C_def patch_D_def)

lemma universal_projection_record:
  "universal_projection patch =
     \<lparr>p_name = name patch, p_description = description patch,
      p_app = ''universal'', p_version = ''all''\<rparr>"
  by (simp add: universal_projection_def)

text \<open>
  Claim C6. A patch whose \<open>compatiblePackages\<close> is empty is appended once to the
  universal bucket, with app \<open>''universal''\<close> and version \<open>''all''\<close>, and nothing
  else changes. In a manifest it adds that one entry to the universal bucket, at
  its place in manifest order, and the bucket of every registered package is
  what it would be without the patch.
\<close>

theorem empty_compatiblePackages_universal_only:
  assumes "compatiblePackages patch = []"
  shows "(\<forall>self universal. self ''universal_patch'' = Some universal \<longrightarrow>
           index_patch patch self =
             (None, self(''universal_patch'' \<mapsto> universal @
                [\<lparr>p_name = name patch, p_description = description patch,
                  p_app = ''universal'', p_version = ''all''\<rparr>])))
       \<and> snd (index_patches (pre @ patch # post) (reset_buckets self)) ''universal_patch'' =
           Some (map universal_projection (filter (\<lambda>p. compatiblePackages p = []) pre)
                 @ [\<lparr>p_name = name patch, p_description = description patch,
                     p_app = ''universal'', p_version = ''all''\<rparr>]
                 @ map universal_projection (filter (\<lambda>p. compatiblePackages p = []) post))
       \<and> (\<forall>pkg app_tuple. map_of revanced_app_ids pkg = Some app_tuple \<longrightarrow>
             snd (index_patches (pre @ patch # post) (reset_buckets self)) (snd app_tuple) =
             snd (index_patches (pre @ post) (reset_buckets self)) (snd app_tuple))"
proof (intro conjI allI impI)
  fix self :: instance_dict and universal
  assume "self ''universal_patch'' = Some universal"
  then show "index_patch patch self =
             (None, self(''universal_patch'' \<mapsto> universal @
                [\<lparr>p_name = name patch, p_description = description patch,
                  p_app = ''universal'', p_version = ''all''\<rparr>]))"
    using assms by (simp add: index_patch_def append_attr_Some universal_projection_def)
next
  show "snd (index_patches (pre @ patch # post) (reset_buckets self)) ''universal_patch'' =
           Some (map universal_projection (filter (\<lambda>p. compatiblePackages p = []) pre)
                 @ [\<lparr>p_name = name patch, p_description = description patch,
                     p_app = ''universal'', p_version = ''all''\<rparr>]
                 @ map universal_projection (filter (\<lambda>p. compatiblePackages p = []) post))"
    using assms
    by (simp only: index_patches_reset_universal universal_projection_record[symmetric]) simp
next
  fix pkg app_tuple
  assume r: "map_of revanced_app_ids pkg = Some app_tuple"
  then have r': "map_of revanced_app_ids pkg = Some (fst app_tuple, snd app_tuple)" by simp
  show "snd (index_patches (pre @ patch # post) (reset_buckets self)) (snd app_tuple) =
        snd (index_patches (pre @ post) (reset_buckets self)) (snd app_tuple)"
    using assms by (simp only: index_patches_reset_bucket[OF r']) simp
qed

lemma patch_A_universal: "compatiblePackages patch_A = []"
  by (simp add: patch_A_def)

theorem empty_compatiblePackages_universal_only_witness:
  "compatiblePackages patch_A = [] \<and>
   reset_buckets Map.empty ''universal_patch'' = Some [] \<and>
   index_patch patch_A (reset_buckets Map.empty) =
     (None, (reset_buckets Map.empty)(''universal_patch'' \<mapsto>
        [\<lparr>p_name = ''A'', p_description = ''d'', p_app = ''universal'', p_version = ''all''\<rparr>])) \<and>
   self_example ''universal_patch'' =
     Some [\<lparr>p_name = ''A'', p_description = ''d'', p_app = ''universal'', p_version = ''all''\<rparr>] \<and>
   map_of revanced_app_ids ''com.spotify.music'' = Some (''spotify'', ''_spotify'') \<and>
   self_example ''_spotify'' =
     snd (index_patches [patch_D, patch_B, patch_C] (reset_buckets Map.empty)) ''_spotify''"
proof -
  have h2: "reset_buckets Map.empty ''universal_patch'' = Some []"
    by (simp only: reset_buckets_apply) simp
  have n: "name patch_A = ''A''" "description patch_A = ''d''" by (simp_all add: patch_A_def)
  have m: "manifest_example = [] @ patch_A # [patch_D, patch_B, patch_C]"
    by (simp add: manifest_example_def)
  have u: "filter (\<lambda>p. compatiblePackages p = []) [patch_D, patch_B, patch_C] = []"
    by (simp add: patch_B_def patch_C_def patch_D_def)
  note w = empty_compatiblePackages_universal_only[OF patch_A_universal,
      of "[]" "[patch_D, patch_B, patch_C]" Map.empty]
  from w have "\<forall>self universal. self ''universal_patch'' = Some universal \<longrightarrow>
           index_patch patch_A self =
             (None, self(''universal_patch'' \<mapsto> universal @
                [\<lparr>p_name = name patch_A, p_description = description patch_A,
                  p_app = ''universal'', p_version = ''all''\<rparr>]))"
    by (rule conjunct1)
  from this[rule_format, of "reset_buckets Map.empty" "[]", OF h2]
  have a: "index_patch patch_A (reset_buckets Map.empty) =
     (None, (reset_buckets Map.empty)(''universal_patch'' \<mapsto>
        [\<lparr>p_name = ''A'', p_description = ''d'', p_app = ''universal'', p_version = ''all''\<rparr>]))"
    by (simp add: n)
  note b0 = conjunct1[OF conjunct2[OF w]]
  have b: "self_example ''universal_patch'' =
     Some [\<lparr>p_name = ''A'', p_description = ''d'', p_app = ''universal'', p_version = ''all''\<rparr>]"
    using b0 unfolding m[symmetric] self_example_def[symmetric] u n by simp
  note c0 = conjunct2[OF conjunct2[OF w], rule_format, OF spotify_registered]
  have c: "self_example ''_spotify'' =
     snd (index_patches [patch_D, patch_B, patch_C] (reset_buckets Map.empty)) ''_spotify''"
    using c0 unfolding m[symmetric] self_example_def[symmetric] by (simp only: snd_conv append_Nil)
  from patch_A_universal h2 a b c spotify_registered show ?thesis by (simp only: simp_thms)
qed

lemma index_packages_filter:
  "index_packages patch xs self =
     index_packages patch (filter (\<lambda>x. cp_name x \<in> set (map fst revanced_app_ids)) xs) self"
proof (induction xs arbitrary: self)
  case Nil
  show ?case by simp
next
  case (Cons x xs)
  show ?case
  proof (cases "map_of revanced_app_ids (cp_name x)")
    case None
    then have "cp_name x \<notin> set (map fst revanced_app_ids)"
      by (simp add: map_of_eq_None_iff)
    with None Cons.IH show ?thesis by simp
  next
    case (Some t)
    then have "cp_name x \<in> set (map fst revanced_app_ids)"
      by (metis map_of_eq_None_iff option.distinct(1) set_map)
    with Some Cons.IH show ?thesis by (simp split: sum.splits)
  qed
qed

lemma unregistered_contributes_nothing:
  assumes "\<forall>x \<in> set xs. cp_name x \<notin> set (map fst revanced_app_ids)"
  shows "filter (\<lambda>x. map_option snd (map_of revanced_app_ids (cp_name x)) = Some b) xs = []"
proof -
  have "map_of revanced_app_ids (cp_name x) = None" if "x \<in> set xs" for x
    using assms that by (simp add: map_of_eq_None_iff)
  then show ?thesis by (simp add: filter_empty_conv)
qed

text \<open>
  Claim C7. Compatible-package entries whose package id is not registered are
  skipped: the inner loop does what it does on the registered entries alone. A
  patch whose entries are all unregistered leaves the instance unchanged and
  raises nothing, and a manifest indexes as it would without that patch.
\<close>

theorem unregistered_package_skipped:
  "index_packages patch xs self =
     index_packages patch (filter (\<lambda>x. cp_name x \<in> set (map fst revanced_app_ids)) xs) self
   \<and> (compatiblePackages patch \<noteq> [] \<longrightarrow>
      (\<forall>x \<in> set (compatiblePackages patch). cp_name x \<notin> set (map fst revanced_app_ids)) \<longrightarrow>
      index_patch patch self = (None, self)
      \<and> index_patches (pre @ patch # post) (reset_buckets self) =
          index_patches (pre @ post) (reset_buckets self))"
proof
  show "index_packages patch xs self =
     index_packages patch (filter (\<lambda>x. cp_name x \<in> set (map fst revanced_app_ids)) xs) self"
    by (rule index_packages_filter)
next
  show "compatiblePackages patch \<noteq> [] \<longrightarrow>
      (\<forall>x \<in> set (compatiblePackages patch). cp_name x \<notin> set (map fst revanced_app_ids)) \<longrightarrow>
      index_patch patch self = (None, self)
      \<and> index_patches (pre @ patch # post) (reset_buckets self) =
          index_patches (pre @ post) (reset_buckets self)"
  proof (intro impI conjI)
    assume ne: "compatiblePackages patch \<noteq> []"
      and un: "\<forall>x \<in> set (compatiblePackages patch). cp_name x \<notin> set (map fst revanced_app_ids)"
    from un have "filter (\<lambda>x. cp_name x \<in> set (map fst revanced_app_ids)) (compatiblePackages patch) = []"
      by (simp add: filter_empty_conv)
    then have "index_packages patch (compatiblePackages patch) self = (None, self)"
      using index_packages_filter[of patch "compatiblePackages patch" self] by simp
    with ne show "index_patch patch self = (None, self)"
      by (simp add: index_patch_def)
    have contrib: "(if b = ''universal_patch'' \<and> compatiblePackages patch = []
             then [universal_projection patch] else [])
          @ map (\<lambda>x. app_projection patch (cp_name x) (cp_versions x))
              (filter (\<lambda>x. map_option snd (map_of revanced_app_ids (cp_name x)) = Some b)
                 (compatiblePackages patch)) = []" for b
      using ne by (simp only: unregistered_contributes_nothing[OF un]) simp
    show "index_patches (pre @ patch # post) (reset_buckets self) =
          index_patches (pre @ post) (reset_buckets self)"
      by (simp only: index_patches_reset map_append list.map concat_append concat.simps
            contrib append_Nil)
  qed
qed

theorem unregistered_package_skipped_witness:
  "index_packages patch_C (compatiblePackages patch_C) self_example = index_packages patch_C [] self_example
   \<and> compatiblePackages patch_C \<noteq> []
   \<and> list_all (\<lambda>x. cp_name x \<notin> set (map fst revanced_app_ids)) (compatiblePackages patch_C)
   \<and> index_patch patch_C self_example = (None, self_example)
   \<and> index_patches manifest_example (reset_buckets Map.empty) =
       index_patches [patch_A, patch_D, patch_B] (reset_buckets Map.empty)"
proof -
  have un: "''org.example.app'' \<notin> set (map fst revanced_app_ids)"
    using example_unregistered by (simp add: map_of_eq_None_iff)
  have h1: "compatiblePackages patch_C \<noteq> []" by (simp add: patch_C_def)
  have h2: "\<forall>x \<in> set (compatiblePackages patch_C). cp_name x \<notin> set (map fst revanced_app_ids)"
    using un by (simp add: patch_C_def)
  have m: "manifest_example = [patch_A, patch_D, patch_B] @ patch_C # []"
    by (simp add: manifest_example_def)
  from unregistered_package_skipped[of patch_C "compatiblePackages patch_C" self_example] h1 h2
  have a: "index_packages patch_C (compatiblePackages patch_C) self_example =
     index_packages patch_C (filter (\<lambda>x. cp_name x \<in> set (map fst revanced_app_ids))
        (compatiblePackages patch_C)) self_example"
    and b: "index_patch patch_C self_example = (None, self_example)"
    by blast+
  from unregistered_package_skipped[of patch_C "[]" Map.empty "[patch_A, patch_D, patch_B]" "[]"] h1 h2
  have c: "index_patches ([patch_A, patch_D, patch_B] @ patch_C # []) (reset_buckets Map.empty) =
          index_patches ([patch_A, patch_D, patch_B] @ []) (reset_buckets Map.empty)"
    by blast
  have f: "filter (\<lambda>x. cp_name x \<in> set (map fst revanced_app_ids)) (compatiblePackages patch_C) = []"
    using h2 by (simp add: filter_empty_conv)
  from a b c h1 h2 show ?thesis
    by (simp only: f m[symmetric] append_Nil2 list_all_iff simp_thms)
qed

subsection \<open>Selection\<close>

lemma next_version_all:
  "\<forall>i \<in> set bucket. p_version i = ''all'' \<Longrightarrow> next_version bucket = None"
  by (induction bucket) auto

lemma next_version_first:
  "\<forall>j \<in> set pre. p_version j = ''all'' \<Longrightarrow> p_version i \<noteq> ''all'' \<Longrightarrow>
   next_version (pre @ i # post) = Some (p_version i)"
  by (induction pre) auto

lemma get_registered:
  assumes "app \<in> set (map snd raw_revanced_app_ids)" and "self (''_'' @ app) = Some bucket"
  shows "get self app =
           Inr (bucket, case next_version bucket of None \<Rightarrow> ''latest'' | Some version \<Rightarrow> version)"
  using assms by (simp add: get_def app_names_Some getattr_bucket_def)

text \<open>
  Claim C4. For a registered application whose bucket exists, \<open>get\<close> returns the
  bucket together with \<open>''latest''\<close> when every entry's version is \<open>''all''\<close> (an
  empty bucket included), and otherwise with the version of the first entry, in
  bucket order, whose version is not \<open>''all''\<close>.
\<close>

theorem get_recommended_version:
  assumes "app \<in> set (map snd raw_revanced_app_ids)" and "self (''_'' @ app) = Some bucket"
  shows "((\<forall>i \<in> set bucket. p_version i = ''all'') \<longrightarrow> get self app = Inr (bucket, ''latest''))
       \<and> (\<forall>pre i post. bucket = pre @ i # post \<and> (\<forall>j \<in> set pre. p_version j = ''all'')
              \<and> p_version i \<noteq> ''all'' \<longrightarrow> get self app = Inr (bucket, p_version i))"
  using get_registered[of app self bucket, OF assms] by (auto simp: next_version_all next_version_first)

lemma spotify_short: "''spotify'' \<in> set (map snd raw_revanced_app_ids)"
  by (simp add: raw_revanced_app_ids_def)

lemma youtube_registered:
  "map_of revanced_app_ids ''com.google.android.youtube'' = Some (''youtube'', ''_youtube'')"
  by (simp add: revanced_app_ids_def raw_revanced_app_ids_def)

lemma youtube_short: "''youtube'' \<in> set (map snd raw_revanced_app_ids)"
  by (simp add: raw_revanced_app_ids_def)

lemma self_example_youtube: "self_example ''_youtube'' = Some []"
  unfolding self_example_def
  by (simp only: index_patches_reset_bucket[OF youtube_registered])
     (simp add: manifest_example_def patch_A_def patch_B_def patch_C_def patch_D_def)

theorem get_recommended_version_witness:
  "''youtube'' \<in> set (map snd raw_revanced_app_ids) \<and> self_example ''_youtube'' = Some []
   \<and> list_all (\<lambda>i. p_version i = ''all'') []
   \<and> get self_example ''youtube'' = Inr ([], ''latest'')
   \<and> ''spotify'' \<in> set (map snd raw_revanced_app_ids)
   \<and> self_example ''_spotify'' = Some spotify_bucket_example
   \<and> spotify_bucket_example =
        [\<lparr>p_name = ''My Patch'', p_description = ''d4'', p_app = ''com.spotify.music'',
          p_version = ''all''\<rparr>]
        @ \<lparr>p_name = ''B'', p_description = ''d2'', p_app = ''com.spotify.music'',
            p_version = ''1.1''\<rparr> # []
   \<and> get self_example ''spotify'' = Inr (spotify_bucket_example, ''1.1'')"
proof -
  have hy: "self_example (''_'' @ ''youtube'') = Some []"
    using self_example_youtube by simp
  have hs: "self_example (''_'' @ ''spotify'') = Some spotify_bucket_example"
    using self_example_spotify by simp
  note y = get_recommended_version[of "''youtube''" self_example "[]", OF youtube_short hy]
  note s = get_recommended_version[of "''spotify''" self_example spotify_bucket_example, OF spotify_short hs]
  from y have a: "get self_example ''youtube'' = Inr ([], ''latest'')" by simp
  have split: "spotify_bucket_example =
        [\<lparr>p_name = ''My Patch'', p_description = ''d4'', p_app = ''com.spotify.music'',
          p_version = ''all''\<rparr>]
        @ \<lparr>p_name = ''B'', p_description = ''d2'', p_app = ''com.spotify.music'',
            p_version = ''1.1''\<rparr> # []"
    by (simp add: spotify_bucket_example_def)
  from s have "\<forall>pre i post. spotify_bucket_example = pre @ i # post
       \<and> (\<forall>j \<in> set pre. p_version j = ''all'') \<and> p_version i \<noteq> ''all''
       \<longrightarrow> get self_example ''spotify'' = Inr (spotify_bucket_example, p_version i)"
    by (rule conjunct2)
  from this[rule_format, of "[\<lparr>p_name = ''My Patch'', p_description = ''d4'', p_app = ''com.spotify.music'',
          p_version = ''all''\<rparr>]" "\<lparr>p_name = ''B'', p_description = ''d2'', p_app = ''com.spotify.music'',
            p_version = ''1.1''\<rparr>" "[]"] split
  have b: "get self_example ''spotify'' = Inr (spotify_bucket_example, ''1.1'')" by simp
  from a b split youtube_short spotify_short self_example_youtube self_example_spotify
  show ?thesis by simp
qed

lemma get_app_configs_requested:
  assumes "get self (app_name app) = Inr (bucket, recommended)"
    and "app_version app = Some requested" and "requested \<noteq> []"
  shows "get_app_configs self app =
           Inr (bucket, app\<lparr>recommended_version := requested,
                 app_experiment := (requested = ''latest'' \<or> requested \<noteq> recommended)\<rparr>)"
proof -
  have "(requested > recommended \<or> requested < recommended) = (requested \<noteq> recommended)"
    by auto
  then show ?thesis
    using assms by (simp add: get_app_configs_def set_recommended_version_def)
qed

lemma get_app_configs_no_request:
  assumes "get self (app_name app) = Inr (bucket, recommended)"
    and "app_version app = None \<or> app_version app = Some []"
  shows "get_app_configs self app =
           Inr (bucket, app\<lparr>recommended_version := recommended, app_experiment := False\<rparr>)"
  using assms by (auto simp: get_app_configs_def set_recommended_version_def)

text \<open>
  Claim C1, as amended. When the requested version is supplied, equals the
  resolved recommended version and is not \<open>''latest''\<close>, \<open>get_app_configs\<close> sets
  the experimental flag to false and keeps the requested version: the two string
  comparisons of the source are both false on equal strings.
\<close>

theorem get_app_configs_request_equal_recommended:
  assumes "get self (app_name app) = Inr (bucket, recommended)"
    and "app_version app = Some requested" and "requested \<noteq> []"
    and "requested = recommended" and "requested \<noteq> ''latest''"
  shows "get_app_configs self app =
           Inr (bucket, app\<lparr>recommended_version := requested, app_experiment := False\<rparr>)"
  using get_app_configs_requested[OF assms(1-3)] assms(4,5) by simp

lemma get_self_example_spotify:
  "get self_example ''spotify'' = Inr (spotify_bucket_example, ''1.1'')"
proof -
  have hs: "self_example (''_'' @ ''spotify'') = Some spotify_bucket_example"
    using self_example_spotify by simp
  show ?thesis
    by (simp only: get_registered[of "''spotify''" self_example spotify_bucket_example, OF spotify_short hs])
       (simp add: spotify_bucket_example_def)
qed

text \<open>
  The claim as first stated asked for a true flag. On the example object, the
  Spotify bucket resolves to version 1.1; requesting 1.1 leaves the flag false.
\<close>

theorem get_app_configs_request_equal_recommended_counterexample:
  "get self_example (app_name (app_example ''spotify'' (Some ''1.1''))) = Inr (spotify_bucket_example, ''1.1'')
   \<and> app_version (app_example ''spotify'' (Some ''1.1'')) = Some ''1.1''
   \<and> ''1.1'' \<noteq> ''latest''
   \<and> get_app_configs self_example (app_example ''spotify'' (Some ''1.1'')) =
       Inr (spotify_bucket_example,
            (app_example ''spotify'' (Some ''1.1''))\<lparr>recommended_version := ''1.1'', app_experiment := False\<rparr>)
   \<and> \<not> app_experiment ((app_example ''spotify'' (Some ''1.1''))\<lparr>recommended_version := ''1.1'', app_experiment := False\<rparr>)"
proof -
  have n: "app_name (app_example ''spotify'' (Some ''1.1'')) = ''spotify''"
    and v: "app_version (app_example ''spotify'' (Some ''1.1'')) = Some ''1.1''"
    by (simp_all add: app_example_def)
  have g: "get self_example (app_name (app_example ''spotify'' (Some ''1.1''))) = Inr (spotify_bucket_example, ''1.1'')"
    by (simp only: n get_self_example_spotify)
  have "get_app_configs self_example (app_example ''spotify'' (Some ''1.1'')) =
       Inr (spotify_bucket_example,
            (app_example ''spotify'' (Some ''1.1''))\<lparr>recommended_version := ''1.1'', app_experiment := False\<rparr>)"
    using g v by (simp add: get_app_configs_def set_recommended_version_def)
  with g v show ?thesis by simp
qed

theorem get_app_configs_request_equal_recommended_witness:
  "get self_example (app_name (app_example ''spotify'' (Some ''1.1''))) = Inr (spotify_bucket_example, ''1.1'')
   \<and> app_version (app_example ''spotify'' (Some ''1.1'')) = Some ''1.1''
   \<and> ''1.1'' \<noteq> [] \<and> ''1.1'' \<noteq> ''latest''
   \<and> get_app_configs self_example (app_example ''spotify'' (Some ''1.1'')) =
       Inr (spotify_bucket_example,
            (app_example ''spotify'' (Some ''1.1''))\<lparr>recommended_version := ''1.1'', app_experiment := False\<rparr>)"
proof -
  have n: "app_name (app_example ''spotify'' (Some ''1.1'')) = ''spotify''"
    and v: "app_version (app_example ''spotify'' (Some ''1.1'')) = Some ''1.1''"
    by (simp_all add: app_example_def)
  have g: "get self_example (app_name (app_example ''spotify'' (Some ''1.1''))) = Inr (spotify_bucket_example, ''1.1'')"
    by (simp only: n get_self_example_spotify)
  have h3: "''1.1'' \<noteq> []" and h5: "''1.1'' \<noteq> ''latest''" by simp_all
  from get_app_configs_request_equal_recommended[OF g v h3 refl h5] g v
  show ?thesis by simp
qed

subsection \<open>Loading\<close>

text \<open>
  Claim C2, as amended. \<open>load_patches\<close> raises \<open>PatchesJsonLoadFailed\<close> with the
  path when the file does not exist. A file that is not JSON makes it raise the
  decoder's own error, and a file that decodes is returned as decoded.
\<close>

theorem load_patches_outcomes:
  "(fs path = NoSuchFile \<longrightarrow>
      load_patches fs path = Inl (PatchesJsonLoadFailed ''File not found'' path))
   \<and> (fs path = NotJson \<longrightarrow> load_patches fs path = Inl JSONDecodeError)
   \<and> (\<forall>patches. fs path = Json patches \<longrightarrow> load_patches fs path = Inr patches)"
  by (simp add: load_patches_def)

theorem load_patches_outcomes_witness:
  "fs_example ''/tmp/missing.json'' = NoSuchFile
   \<and> load_patches fs_example ''/tmp/missing.json''
        = Inl (PatchesJsonLoadFailed ''File not found'' ''/tmp/missing.json'')
   \<and> fs_example ''/tmp/broken.json'' = NotJson
   \<and> load_patches fs_example ''/tmp/broken.json'' = Inl JSONDecodeError
   \<and> fs_example ''/tmp/patches.json'' = Json manifest_example
   \<and> load_patches fs_example ''/tmp/patches.json'' = Inr manifest_example"
proof -
  have a: "fs_example ''/tmp/missing.json'' = NoSuchFile"
    and b: "fs_example ''/tmp/broken.json'' = NotJson"
    and c: "fs_example ''/tmp/patches.json'' = Json manifest_example"
    by (simp_all add: fs_example_def)
  from load_patches_outcomes[of fs_example "''/tmp/missing.json''"]
       load_patches_outcomes[of fs_example "''/tmp/broken.json''"]
       load_patches_outcomes[of fs_example "''/tmp/patches.json''"] a b c
  show ?thesis by simp
qed

text \<open>
  The claim as first stated gave malformed JSON the same error as a missing
  file. The example folder holds a file that is not JSON.
\<close>

theorem load_patches_malformed_counterexample:
  "fs_example ''/tmp/broken.json'' = NotJson
   \<and> load_patches fs_example ''/tmp/broken.json'' = Inl JSONDecodeError
   \<and> load_patches fs_example ''/tmp/broken.json''
        \<noteq> Inl (PatchesJsonLoadFailed ''File not found'' ''/tmp/broken.json'')"
  by (simp add: load_patches_def fs_example_def)

subsection \<open>Filtering\<close>

lemma replace_space_hyphen:
  "replace (CHR '' '') ''-'' s = map (\<lambda>c. if c = CHR '' '' then CHR ''-'' else c) s"
  by (induction s) auto

lemma first_loop_calls:
  "first_loop lower excl patches parser =
     parser @ map (\<lambda>n. if n \<in> set excl then Exclude n else Include n)
                (map (\<lambda>patch. map (\<lambda>c. if c = CHR '' '' then CHR ''-'' else c)
                                  (lower (p_name patch))) patches)"
  by (induction patches arbitrary: parser) (auto simp: Let_def replace_space_hyphen)

lemma second_loop_calls:
  "second_loop universal requests parser =
     parser @ map Include (filter (\<lambda>raw. PyStr raw \<notin> set universal) requests)"
  by (induction requests arbitrary: parser) auto

lemma str_not_in_patches: "PyStr raw \<notin> set (map PyPatch bucket)"
  by auto

text \<open>
  Claim C3. \<open>include_exclude_patch\<close> sends the parser one call for each patch of
  the bucket, in order. The name of the call is the patch's name as
  \<^verbatim>\<open>str.lower\<close> returns it, with a hyphen in place of every space and
  nothing else changed; the call is \<open>Exclude\<close> when that name is among the
  exclude requests and \<open>Include\<close> otherwise. Then comes \<open>Include\<close> of each
  requested name that is not an element of the universal bucket. No requested
  name is such an element, a string never being equal to a patch dictionary, so
  every requested name is included.
\<close>

theorem include_exclude_patch_calls:
  "include_exclude_patch lower self app parser patches =
     parser
     @ map (\<lambda>n. if n \<in> set (exclude_request app) then Exclude n else Include n)
         (map (\<lambda>patch. map (\<lambda>c. if c = CHR '' '' then CHR ''-'' else c)
                           (lower (p_name patch))) patches)
     @ map Include
         (filter (\<lambda>raw. PyStr raw \<notin> set (map PyPatch
                    (case self ''universal_patch'' of None \<Rightarrow> [] | Some bucket \<Rightarrow> bucket)))
            (include_request app))
   \<and> filter (\<lambda>raw. PyStr raw \<notin> set (map PyPatch
                (case self ''universal_patch'' of None \<Rightarrow> [] | Some bucket \<Rightarrow> bucket)))
        (include_request app) = include_request app"
proof
  show "include_exclude_patch lower self app parser patches =
     parser
     @ map (\<lambda>n. if n \<in> set (exclude_request app) then Exclude n else Include n)
         (map (\<lambda>patch. map (\<lambda>c. if c = CHR '' '' then CHR ''-'' else c)
                           (lower (p_name patch))) patches)
     @ map Include
         (filter (\<lambda>raw. PyStr raw \<notin> set (map PyPatch
                    (case self ''universal_patch'' of None \<Rightarrow> [] | Some bucket \<Rightarrow> bucket)))
            (include_request app))"
    by (simp only: include_exclude_patch_def first_loop_calls second_loop_calls append_assoc)
next
  show "filter (\<lambda>raw. PyStr raw \<notin> set (map PyPatch
                (case self ''universal_patch'' of None \<Rightarrow> [] | Some bucket \<Rightarrow> bucket)))
        (include_request app) = include_request app"
    by (simp only: str_not_in_patches not_False_eq_True) simp
qed

lemma ascii_lower_My_Patch: "ascii_lower ''My Patch'' = ''my patch''"
  by code_simp

lemma ascii_lower_B: "ascii_lower ''B'' = ''b''"
  by code_simp

theorem include_exclude_patch_calls_witness:
  "include_exclude_patch ascii_lower self_example (app_example ''spotify'' None) []
     spotify_bucket_example =
     [Exclude ''my-patch'', Include ''b'', Include ''custom-branding'', Include ''A'']"
proof -
  have r: "include_request (app_example ''spotify'' None) = [''custom-branding'', ''A'']"
    "exclude_request (app_example ''spotify'' None) = [''my-patch'']"
    by (simp_all add: app_example_def)
  from include_exclude_patch_calls[of ascii_lower self_example "app_example ''spotify'' None" "[]"
      spotify_bucket_example]
  have "include_exclude_patch ascii_lower self_example (app_example ''spotify'' None) []
          spotify_bucket_example =
     [] @ map (\<lambda>n. if n \<in> set (exclude_request (app_example ''spotify'' None))
                    then Exclude n else Include n)
         (map (\<lambda>patch. map (\<lambda>c. if c = CHR '' '' then CHR ''-'' else c)
                           (ascii_lower (p_name patch))) spotify_bucket_example)
     @ map Include (include_request (app_example ''spotify'' None))"
    by simp
  then show ?thesis
    by (simp add: r spotify_bucket_example_def ascii_lower_My_Patch ascii_lower_B)
qed

subsection \<open>The patch count\<close>

lemma unregistered_attr_unbound:
  assumes "a \<notin> set (map snd raw_revanced_app_ids)"
  shows "snd (index_patches patches (reset_buckets self)) (''_'' @ a) = self (''_'' @ a)"
proof (rule index_patches_reset_other)
  show "''_'' @ a \<noteq> ''universal_patch''" by simp
  show "''_'' @ a \<notin> set (map (\<lambda>(x, app_tuple). snd app_tuple) revanced_app_ids)"
    using assms by (simp only: underscore_bucket_name not_False_eq_True)
qed

lemma index_patches_reset_pair:
  "index_patches patches (reset_buckets self) =
     (None, snd (index_patches patches (reset_buckets self)))"
  using index_patches_reset_ok[of patches self] by (simp add: prod_eq_iff)

lemma fetch_patches_loaded:
  assumes "resource app ''patches_json'' = Some file_name"
    and "fs (temp_folder config @ ''/'' @ file_name) = Json patches"
  shows "fetch_patches inherited fs self config app =
     (let self' = snd (index_patches patches (reset_buckets self)) in
      case getattr inherited self' (''_'' @ app_name app) of
        Inl e \<Rightarrow> (Inl e, self')
      | Inr obj \<Rightarrow>
         (case len obj of
            Inl e \<Rightarrow> (Inl e, self')
          | Inr n_patches \<Rightarrow> (Inr (app\<lparr>no_of_patches := n_patches\<rparr>), self')))"
proof -
  have l: "load_patches fs (temp_folder config @ ''/'' @ file_name) = Inr patches"
    using assms(2) by (simp add: load_patches_def)
  show ?thesis
    unfolding fetch_patches_def
    by (simp only: assms(1) l option.case sum.case Let_def)
       (subst index_patches_reset_pair, simp only: prod.case option.case)
qed

lemma fetch_patches_missing_attr:
  assumes "app_name app \<notin> set (map snd raw_revanced_app_ids)"
    and "''_'' @ app_name app \<notin> set (map fst class_attrs)"
    and "inherited (''_'' @ app_name app) = None"
    and "self (''_'' @ app_name app) = None"
    and "resource app ''patches_json'' = Some file_name"
    and "fs (temp_folder config @ ''/'' @ file_name) = Json patches"
  shows "fetch_patches inherited fs self config app =
           (Inl (AttributeError (''_'' @ app_name app)),
            snd (index_patches patches (reset_buckets self)))"
proof -
  have u: "snd (index_patches patches (reset_buckets self)) (''_'' @ app_name app) = None"
    using unregistered_attr_unbound[OF assms(1)] assms(4) by simp
  have c: "map_of class_attrs (''_'' @ app_name app) = None"
    using assms(2) by (simp add: map_of_eq_None_iff)
  have "getattr inherited (snd (index_patches patches (reset_buckets self))) (''_'' @ app_name app)
          = Inl (AttributeError (''_'' @ app_name app))"
    by (simp only: getattr_def u c assms(3) option.case)
  then show ?thesis
    by (simp only: fetch_patches_loaded[of app file_name fs config patches, OF assms(5,6)] Let_def sum.case)
qed

text \<open>
  Claim C10, as amended. Let the manifest load, let the descriptor's name be no
  registered short name, and let \<^verbatim>\<open>"_" + app_name\<close> be bound neither in the
  instance, nor in the class body, nor by what the class inherits. Then
  \<open>fetch_patches\<close> raises \<open>AttributeError\<close> for that attribute, not
  \<open>AppNotFound\<close>, after the indexing loop has run to its end without an
  exception and has filled the bucket of every registered package; the
  constructor raises the same error.
\<close>

theorem fetch_patches_unregistered_app:
  assumes "app_name app \<notin> set (map snd raw_revanced_app_ids)"
    and "''_'' @ app_name app \<notin> set (map fst class_attrs)"
    and "inherited (''_'' @ app_name app) = None"
    and "self (''_'' @ app_name app) = None"
    and "resource app ''patches_json'' = Some file_name"
    and "fs (temp_folder config @ ''/'' @ file_name) = Json patches"
  shows "fetch_patches inherited fs self config app =
           (Inl (AttributeError (''_'' @ app_name app)),
            snd (index_patches patches (reset_buckets self)))
       \<and> fst (index_patches patches (reset_buckets self)) = None
       \<and> (\<forall>pkg short bucket_name. map_of revanced_app_ids pkg = Some (short, bucket_name) \<longrightarrow>
            snd (fetch_patches inherited fs self config app) bucket_name =
              Some (concat (map (\<lambda>patch. map (\<lambda>x. app_projection patch pkg (cp_versions x))
                     (filter (\<lambda>x. cp_name x = pkg) (compatiblePackages patch))) patches)))
       \<and> Patches_init inherited fs config app = Inl (AttributeError (''_'' @ app_name app))"
proof -
  have f: "fetch_patches inherited fs self config app =
           (Inl (AttributeError (''_'' @ app_name app)),
            snd (index_patches patches (reset_buckets self)))"
    using assms by (rule fetch_patches_missing_attr)
  have e: "fetch_patches inherited fs Map.empty config app =
           (Inl (AttributeError (''_'' @ app_name app)),
            snd (index_patches patches (reset_buckets Map.empty)))"
    using assms(1-3) _ assms(5,6) by (rule fetch_patches_missing_attr) simp
  show ?thesis
    unfolding f by (simp add: index_patches_reset_ok index_patches_reset_bucket Patches_init_def e)
qed

lemma facebook_not_short: "''facebook'' \<notin> set (map snd raw_revanced_app_ids)"
  by (simp add: raw_revanced_app_ids_def)

theorem fetch_patches_unregistered_app_witness:
  "app_name (app_example ''facebook'' None) \<notin> set (map snd raw_revanced_app_ids)
   \<and> ''_'' @ app_name (app_example ''facebook'' None) \<notin> set (map fst class_attrs)
   \<and> inherited_example (''_'' @ app_name (app_example ''facebook'' None)) = None
   \<and> resource (app_example ''facebook'' None) ''patches_json'' = Some ''patches.json''
   \<and> fs_example (temp_folder config_example @ ''/'' @ ''patches.json'') = Json manifest_example
   \<and> fetch_patches inherited_example fs_example Map.empty config_example (app_example ''facebook'' None)
        = (Inl (AttributeError ''_facebook''), self_example)
   \<and> self_example ''_spotify'' = Some spotify_bucket_example
   \<and> Patches_init inherited_example fs_example config_example (app_example ''facebook'' None)
        = Inl (AttributeError ''_facebook'')"
proof -
  have n: "app_name (app_example ''facebook'' None) = ''facebook''"
    by (simp add: app_example_def)
  have h1: "app_name (app_example ''facebook'' None) \<notin> set (map snd raw_revanced_app_ids)"
    by (simp only: n facebook_not_short not_False_eq_True)
  have h2: "''_'' @ app_name (app_example ''facebook'' None) \<notin> set (map fst class_attrs)"
    by (simp add: n class_attrs_def)
  have h3: "inherited_example (''_'' @ app_name (app_example ''facebook'' None)) = None"
    by (simp add: n inherited_example_def)
  have h4: "Map.empty (''_'' @ app_name (app_example ''facebook'' None)) = None"
    by simp
  have h5: "resource (app_example ''facebook'' None) ''patches_json'' = Some ''patches.json''"
    by (simp add: app_example_def)
  have h6: "fs_example (temp_folder config_example @ ''/'' @ ''patches.json'') = Json manifest_example"
    by (simp add: fs_example_def config_example_def)
  note w = fetch_patches_unregistered_app[of "app_example ''facebook'' None" inherited_example
      Map.empty "''patches.json''" fs_example config_example manifest_example,
      OF h1 h2 h3 h4 h5 h6]
  from w have a: "fetch_patches inherited_example fs_example Map.empty config_example (app_example ''facebook'' None)
        = (Inl (AttributeError ''_facebook''), self_example)"
    by (simp add: n self_example_def)
  from w have b: "Patches_init inherited_example fs_example config_example (app_example ''facebook'' None)
        = Inl (AttributeError ''_facebook'')"
    by (simp add: n)
  from a b h1 h2 h3 h5 h6 self_example_spotify show ?thesis by simp
qed

lemma revanced_app_ids_not_short: "''revanced_app_ids'' \<notin> set (map snd raw_revanced_app_ids)"
  by (simp add: raw_revanced_app_ids_def)

text \<open>
  The claim as first stated covered every name that is not a registered short
  name. The name \<open>''revanced_app_ids''\<close> is none, yet \<^verbatim>\<open>"_revanced_app_ids"\<close> is
  an attribute of the class, the registry dictionary itself: the read succeeds
  and the patch count becomes the number of registry entries.
\<close>

theorem fetch_patches_class_attribute_counterexample:
  "app_name (app_example ''revanced_app_ids'' None) \<notin> set (map snd raw_revanced_app_ids)
   \<and> fetch_patches inherited_example fs_example Map.empty config_example
        (app_example ''revanced_app_ids'' None)
      = (Inr ((app_example ''revanced_app_ids'' None)\<lparr>no_of_patches := 40\<rparr>), self_example)
   \<and> Patches_init inherited_example fs_example config_example (app_example ''revanced_app_ids'' None)
      = Inr (self_example, (app_example ''revanced_app_ids'' None)\<lparr>no_of_patches := 40\<rparr>)"
proof -
  have n: "app_name (app_example ''revanced_app_ids'' None) = ''revanced_app_ids''"
    by (simp add: app_example_def)
  have h1: "app_name (app_example ''revanced_app_ids'' None) \<notin> set (map snd raw_revanced_app_ids)"
    by (simp only: n revanced_app_ids_not_short not_False_eq_True)
  have h5: "resource (app_example ''revanced_app_ids'' None) ''patches_json'' = Some ''patches.json''"
    by (simp add: app_example_def)
  have h6: "fs_example (temp_folder config_example @ ''/'' @ ''patches.json'') = Json manifest_example"
    by (simp add: fs_example_def config_example_def)
  have u: "self_example (''_'' @ ''revanced_app_ids'') = None"
    unfolding self_example_def
    using unregistered_attr_unbound[OF revanced_app_ids_not_short, of manifest_example Map.empty]
    by simp
  have g: "getattr inherited_example self_example (''_'' @ ''revanced_app_ids'') = Inr (Dict 40)"
    by (simp only: getattr_def u option.case) (simp add: class_attrs_def length_registry)
  have f: "fetch_patches inherited_example fs_example Map.empty config_example
        (app_example ''revanced_app_ids'' None)
      = (Inr ((app_example ''revanced_app_ids'' None)\<lparr>no_of_patches := 40\<rparr>), self_example)"
    by (simp only: fetch_patches_loaded[of "app_example ''revanced_app_ids'' None" "''patches.json''" fs_example config_example manifest_example, OF h5 h6] n Let_def)
       (simp only: self_example_def[symmetric] g sum.case len_def pyobj.case)
  show ?thesis
    using h1 f by (simp add: Patches_init_def)
qed

end
